theory Spec2Isabelle
  imports Complex_Main "HOL-Library.Word" "HOL-Library.Multiset"
begin

unbundle bit_operations_syntax

section \<open>Errors raised by the Python code\<close>

text \<open>
  Every exception the modelled functions can raise is a value of this type; a function
  that can raise returns \<open>error + 'a\<close>, with \<open>Inl\<close> for the exception.
\<close>

datatype error = ZeroDivisionError | ValueError | AssertionError

section \<open>hw2/binary\_metrics.py: confusion counts\<close>

text \<open>
  \<open>calc_TP_TN_FP_FN\<close> first casts both inputs with \<open>np.asarray(..., dtype=np.int32)\<close>.
  The model starts after the cast: a label vector is a one-dimensional array of 32-bit
  integers. On such arrays \<open>1 - y\<close> and \<open>&\<close> work elementwise on the 32-bit values
  (\<open>-\<close> wraps, \<open>&\<close> is bitwise on the two's complement representation).
  \<open>np.sum\<close> adds the signed values in a 64-bit accumulator, which the length of an
  array in memory cannot overflow, and \<open>int(...)\<close> turns the result into a Python
  integer; so the sum is the sum of the signed values as an unbounded integer.
\<close>

type_synonym int32 = "32 word"

definition np_sum :: "int32 list \<Rightarrow> int" where
  "np_sum a = sum_list (map sint a)"

text \<open>
  For one-dimensional arrays the shapes are equal exactly when the lengths are; the
  \<open>assert\<close> raises \<open>AssertionError\<close> otherwise, before anything is counted.
\<close>

definition calc_TP_TN_FP_FN :: "int32 list \<Rightarrow> int32 list \<Rightarrow> error + (int \<times> int \<times> int \<times> int)" where
  "calc_TP_TN_FP_FN ytrue_N yhat_N =
     (if length ytrue_N \<noteq> length yhat_N then Inl AssertionError
      else
        let TP = np_sum (map2 (\<lambda>t p. t AND p) ytrue_N yhat_N);
            TN = np_sum (map2 (\<lambda>t p. (1 - t) AND (1 - p)) ytrue_N yhat_N);
            FP = np_sum (map2 (\<lambda>t p. (1 - t) AND p) ytrue_N yhat_N);
            FN = np_sum (map2 (\<lambda>t p. t AND (1 - p)) ytrue_N yhat_N)
        in Inr (TP, TN, FP, FN))"

text \<open>The number of positions at which the true label is \<open>a\<close> and the predicted label is \<open>b\<close>.\<close>

definition count_pairs :: "int32 \<Rightarrow> int32 \<Rightarrow> int32 list \<Rightarrow> int32 list \<Rightarrow> int" where
  "count_pairs a b ytrue_N yhat_N =
     int (length (filter (\<lambda>(t, p). t = a \<and> p = b) (zip ytrue_N yhat_N)))"

section \<open>hw2/binary\_metrics.py: the three ratios\<close>

text \<open>
  The ratios are computed in Python floats (IEEE 754 binary64). Every float operation
  is the exact operation on the reals followed by rounding to a representable number,
  so the arithmetic is a parameter of the model: \<open>rnd\<close> maps a real to the float it
  is rounded to, and a float is a real that \<open>rnd\<close> leaves alone. The counts are small
  enough (at most the length of an array in memory) that no operation overflows.

  \<^item> \<open>float_of_int\<close>: the conversion of a Python integer in \<open>int / float\<close> and
    \<open>int + float\<close>;
  \<^item> \<open>literal_1e_10\<close>: the literal \<open>1e-10\<close>, the float nearest to \<open>10\<^sup>-\<^sup>1\<^sup>0\<close>;
  \<^item> \<open>float_add\<close>: \<open>+\<close> on floats;
  \<^item> \<open>float_div\<close>: \<open>/\<close> on floats, which raises \<open>ZeroDivisionError\<close> on a zero
    divisor.
\<close>

definition float_of_int :: "(real \<Rightarrow> real) \<Rightarrow> int \<Rightarrow> real" where
  "float_of_int rnd i = rnd (of_int i)"

definition literal_1e_10 :: "(real \<Rightarrow> real) \<Rightarrow> real" where
  "literal_1e_10 rnd = rnd (1 / 10 ^ 10)"

definition float_add :: "(real \<Rightarrow> real) \<Rightarrow> real \<Rightarrow> real \<Rightarrow> real" where
  "float_add rnd x y = rnd (x + y)"

definition float_div :: "(real \<Rightarrow> real) \<Rightarrow> real \<Rightarrow> real \<Rightarrow> error + real" where
  "float_div rnd x y = (if y = 0 then Inl ZeroDivisionError else Inr (rnd (x / y)))"

definition calc_ACC :: "(real \<Rightarrow> real) \<Rightarrow> int32 list \<Rightarrow> int32 list \<Rightarrow> error + real" where
  "calc_ACC rnd ytrue_N yhat_N =
     (case calc_TP_TN_FP_FN ytrue_N yhat_N of
        Inl e \<Rightarrow> Inl e
      | Inr (TP, TN, FP, FN) \<Rightarrow>
          float_div rnd (float_of_int rnd (TP + TN))
            (float_add rnd (float_of_int rnd (TP + TN + FP + FN)) (literal_1e_10 rnd)))"

definition calc_TPR :: "(real \<Rightarrow> real) \<Rightarrow> int32 list \<Rightarrow> int32 list \<Rightarrow> error + real" where
  "calc_TPR rnd ytrue_N yhat_N =
     (case calc_TP_TN_FP_FN ytrue_N yhat_N of
        Inl e \<Rightarrow> Inl e
      | Inr (TP, TN, FP, FN) \<Rightarrow>
          float_div rnd (float_of_int rnd TP)
            (float_add rnd (float_of_int rnd (TP + FN)) (literal_1e_10 rnd)))"

definition calc_PPV :: "(real \<Rightarrow> real) \<Rightarrow> int32 list \<Rightarrow> int32 list \<Rightarrow> error + real" where
  "calc_PPV rnd ytrue_N yhat_N =
     (case calc_TP_TN_FP_FN ytrue_N yhat_N of
        Inl e \<Rightarrow> Inl e
      | Inr (TP, TN, FP, FN) \<Rightarrow>
          float_div rnd (float_of_int rnd TP)
            (float_add rnd (float_of_int rnd (TP + FP)) (literal_1e_10 rnd)))"

text \<open>
  The ratio of a count \<open>a\<close> to a total \<open>s\<close>, as the three functions compute it:
  \<open>a / (s + 1e-10)\<close> in float arithmetic.
\<close>

definition guarded_ratio :: "(real \<Rightarrow> real) \<Rightarrow> int \<Rightarrow> int \<Rightarrow> real" where
  "guarded_ratio rnd a s = rnd (rnd (of_int a) / rnd (rnd (of_int s) + rnd (1 / 10 ^ 10)))"

section \<open>hw1/cross\_validation.py: the fold splitter\<close>

subsection \<open>The numpy operations the splitter calls\<close>

text \<open>
  The pseudorandom generator is numpy's, not this repository's, so it is a parameter of
  the model: \<open>RandomState\<close> is the constructor \<open>np.random.RandomState(seed)\<close>, which
  may reject a seed, and \<open>shuffle\<close> is the method \<open>random_state.shuffle(a)\<close>, which
  rearranges the array in place and advances the generator. \<open>'g\<close> is the type of
  generator states.
\<close>

record 'g np_random =
  RandomState :: "int \<Rightarrow> error + 'g"
  shuffle :: "'g \<Rightarrow> int list \<Rightarrow> int list \<times> 'g"

text \<open>
  The argument \<open>random_state\<close> is an integer seed, or a generator object (one with an
  attribute \<open>rand\<close>). A generator object is passed by reference and the caller sees it
  advance, so generator objects live in a heap, addressed by a number.
\<close>

datatype random_state = Seed int | Generator nat

type_synonym 'g heap = "nat \<Rightarrow> 'g"

text \<open>Lines 149 to 155: the generator to use.\<close>

definition get_generator :: "'g np_random \<Rightarrow> random_state \<Rightarrow> 'g heap \<Rightarrow> error + 'g" where
  "get_generator np random_state h =
     (case random_state of
        Generator a \<Rightarrow> Inr (h a)
      | Seed s \<Rightarrow> RandomState np s)"

text \<open>
  After the shuffle a generator object that was passed in holds its new state; one made
  from a seed is local to the call and is dropped.
\<close>

definition put_generator :: "random_state \<Rightarrow> 'g \<Rightarrow> 'g heap \<Rightarrow> 'g heap" where
  "put_generator random_state g h =
     (case random_state of
        Generator a \<Rightarrow> h(a := g)
      | Seed s \<Rightarrow> h)"

text \<open>
  \<open>np.arange(n)\<close>: the integers from 0 up to \<open>n - 1\<close>, none when \<open>n \<le> 0\<close>.
  numpy holds the indices and the length of the array in signed 64-bit integers, so this
  is \<open>np.arange\<close> for \<open>n < 2\<^sup>6\<^sup>3\<close> only; what numpy does from there on is not
  modelled, and the theorems about the folds assume \<open>n_examples < 2\<^sup>6\<^sup>3\<close>.
\<close>

definition np_arange :: "int \<Rightarrow> int list" where
  "np_arange n = [0..n - 1]"

text \<open>Python's \<open>//\<close> and \<open>%\<close> on integers round to minus infinity and raise on a zero divisor.\<close>

definition floordiv :: "int \<Rightarrow> int \<Rightarrow> error + int" where
  "floordiv a b = (if b = 0 then Inl ZeroDivisionError else Inr (a div b))"

definition pymod :: "int \<Rightarrow> int \<Rightarrow> error + int" where
  "pymod a b = (if b = 0 then Inl ZeroDivisionError else Inr (a mod b))"

text \<open>\<open>np.full(n, v)\<close>: \<open>n\<close> copies of \<open>v\<close>; a negative length raises \<open>ValueError\<close>.\<close>

definition np_full :: "int \<Rightarrow> int \<Rightarrow> error + int list" where
  "np_full n v = (if n < 0 then Inl ValueError else Inr (replicate (nat n) v))"

text \<open>
  A slice bound on a sequence of length \<open>n\<close>: a negative bound counts from the end, and
  every bound is clipped to the sequence.
\<close>

definition slice_bound :: "nat \<Rightarrow> int \<Rightarrow> nat" where
  "slice_bound n i = (if i < 0 then nat (max (i + int n) 0) else min (nat i) n)"

text \<open>\<open>a[start:stop]\<close>, empty when the bounds cross.\<close>

definition py_slice :: "'a list \<Rightarrow> int \<Rightarrow> int \<Rightarrow> 'a list" where
  "py_slice a start stop =
     (let lo = slice_bound (length a) start;
          hi = slice_bound (length a) stop
      in take (hi - lo) (drop lo a))"

text \<open>\<open>a[:stop] += 1\<close>, in place.\<close>

definition add_one_to_prefix :: "int list \<Rightarrow> int \<Rightarrow> int list" where
  "add_one_to_prefix a stop =
     (let hi = slice_bound (length a) stop
      in map (\<lambda>v. v + 1) (take hi a) @ drop hi a)"

text \<open>\<open>np.unique(a)\<close>: the distinct values of \<open>a\<close>, in increasing order.\<close>

definition np_unique :: "int list \<Rightarrow> int list" where
  "np_unique a = sort (remdups a)"

text \<open>
  \<open>np.setdiff1d(ar1, ar2)\<close>: the distinct values of \<open>ar1\<close> that are not in \<open>ar2\<close>, in
  increasing order.
\<close>

definition np_setdiff1d :: "int list \<Rightarrow> int list \<Rightarrow> int list" where
  "np_setdiff1d ar1 ar2 = filter (\<lambda>x. x \<notin> set ar2) (np_unique ar1)"

subsection \<open>The splitter\<close>

text \<open>
  Lines 165 to 177: the loop over \<open>fold_sizes\<close>, with the running offset \<open>current\<close> and
  the two result lists, each extended at its end. In the source the fold sizes and,
  after the first step, \<open>current\<close> are \<open>np.int64\<close>, and \<open>current + fold_size\<close> wraps
  at \<open>2\<^sup>6\<^sup>3\<close>; the offsets here are unbounded integers, which is the same as long as
  the sizes add up to less than \<open>2\<^sup>6\<^sup>3\<close>, that is for \<open>n_examples < 2\<^sup>6\<^sup>3\<close>.
\<close>

fun fold_loop :: "int list \<Rightarrow> int list \<Rightarrow> int \<Rightarrow> int list list \<times> int list list
    \<Rightarrow> int list list \<times> int list list" where
  "fold_loop all_indices [] current (train_ids_per_fold, test_ids_per_fold) =
     (train_ids_per_fold, test_ids_per_fold)"
| "fold_loop all_indices (fold_size # fold_sizes) current (train_ids_per_fold, test_ids_per_fold) =
     (let test_ids = py_slice all_indices current (current + fold_size);
          train_ids = np_setdiff1d all_indices test_ids
      in fold_loop all_indices fold_sizes (current + fold_size)
           (train_ids_per_fold @ [train_ids], test_ids_per_fold @ [test_ids]))"

text \<open>
  The whole function, in the order of the source: the generator, the shuffled indices
  (at which point a generator object that was passed in has advanced), the fold sizes,
  the loop. The result is the pair \<open>(train_ids_per_fold, test_ids_per_fold)\<close> or the
  exception raised, together with the heap after the call.
\<close>

definition make_train_and_test_row_ids_for_n_fold_cv ::
    "'g np_random \<Rightarrow> int \<Rightarrow> int \<Rightarrow> random_state \<Rightarrow> 'g heap
      \<Rightarrow> (error + int list list \<times> int list list) \<times> 'g heap" where
  "make_train_and_test_row_ids_for_n_fold_cv np n_examples n_folds random_state h =
     (case get_generator np random_state h of
        Inl e \<Rightarrow> (Inl e, h)
      | Inr g \<Rightarrow>
          let (all_indices, g') = shuffle np g (np_arange n_examples);
              h' = put_generator random_state g' h
          in (case floordiv n_examples n_folds of
                Inl e \<Rightarrow> (Inl e, h')
              | Inr q \<Rightarrow>
                  (case np_full n_folds q of
                     Inl e \<Rightarrow> (Inl e, h')
                   | Inr fold_sizes \<Rightarrow>
                       (case pymod n_examples n_folds of
                          Inl e \<Rightarrow> (Inl e, h')
                        | Inr r \<Rightarrow>
                            (Inr (fold_loop all_indices (add_one_to_prefix fold_sizes r) 0 ([], [])),
                             h')))))"

subsection \<open>Closed forms used in the proofs\<close>

text \<open>The test blocks the loop cuts from \<open>all_indices\<close>, starting at offset \<open>current\<close>.\<close>

fun blocks :: "'a list \<Rightarrow> int list \<Rightarrow> int \<Rightarrow> 'a list list" where
  "blocks a [] current = []"
| "blocks a (fold_size # fold_sizes) current =
     py_slice a current (current + fold_size) # blocks a fold_sizes (current + fold_size)"

text \<open>The fold sizes after line 162, for a positive number of folds.\<close>

definition sizes_of :: "int \<Rightarrow> int \<Rightarrow> int list" where
  "sizes_of n_examples n_folds =
     replicate (nat (n_examples mod n_folds)) (n_examples div n_folds + 1)
     @ replicate (nat n_folds - nat (n_examples mod n_folds)) (n_examples div n_folds)"

subsection \<open>A small generator to run the splitter on\<close>

text \<open>
  A stand-in for numpy's generator, used to evaluate the splitter on concrete inputs:
  seeds are accepted in numpy's range, the state is a counter, and shuffling rotates
  the array by the counter.
\<close>

definition rotating_random :: "nat np_random" where
  "rotating_random =
     \<lparr> RandomState = (\<lambda>seed. if 0 \<le> seed \<and> seed < 2 ^ 32 then Inr (nat seed) else Inl ValueError),
       shuffle = (\<lambda>g a. (rotate (Suc g) a, Suc g)) \<rparr>"

section \<open>Confusion counts: proofs\<close>

lemma np_sum_Nil: "np_sum [] = 0"
  by (simp add: np_sum_def)

lemma np_sum_Cons: "np_sum (x # xs) = sint x + np_sum xs"
  by (simp add: np_sum_def)

lemma sum_and_counts:
  assumes "length yt = length yh" and "set yt \<subseteq> {0, 1}" and "set yh \<subseteq> {0, 1}"
  shows "np_sum (map2 (\<lambda>t p. t AND p) yt yh) = count_pairs 1 1 yt yh
       \<and> np_sum (map2 (\<lambda>t p. (1 - t) AND (1 - p)) yt yh) = count_pairs 0 0 yt yh
       \<and> np_sum (map2 (\<lambda>t p. (1 - t) AND p) yt yh) = count_pairs 0 1 yt yh
       \<and> np_sum (map2 (\<lambda>t p. t AND (1 - p)) yt yh) = count_pairs 1 0 yt yh"
  using assms
proof (induction yt yh rule: list_induct2)
  case Nil
  show ?case by (simp add: np_sum_Nil count_pairs_def)
next
  case (Cons t ts p ps)
  have t: "t \<in> {0, 1}" and p: "p \<in> {0, 1}" and ts: "set ts \<subseteq> {0, 1}" and ps: "set ps \<subseteq> {0, 1}"
    using Cons.prems by auto
  from Cons.IH [OF ts ps] t p show ?case
    by (auto simp: np_sum_Cons count_pairs_def)
qed

lemma count_pairs_total:
  assumes "length yt = length yh" and "set yt \<subseteq> {0, 1}" and "set yh \<subseteq> {0, 1}"
  shows "count_pairs 1 1 yt yh + count_pairs 0 0 yt yh + count_pairs 0 1 yt yh
           + count_pairs 1 0 yt yh = int (length yt)"
  using assms
proof (induction yt yh rule: list_induct2)
  case Nil
  show ?case by (simp add: count_pairs_def)
next
  case (Cons t ts p ps)
  have t: "t \<in> {0, 1}" and p: "p \<in> {0, 1}" and ts: "set ts \<subseteq> {0, 1}" and ps: "set ps \<subseteq> {0, 1}"
    using Cons.prems by auto
  from Cons.IH [OF ts ps] t p show ?case
    by (auto simp: count_pairs_def)
qed

lemma count_pairs_nonneg: "0 \<le> count_pairs a b yt yh"
  by (simp add: count_pairs_def)


section \<open>Confusion counts: the claims\<close>

text \<open>
  C7. For label vectors of equal length whose entries are all 0 or 1,
  \<open>calc_TP_TN_FP_FN\<close> returns four integers, none negative: TP is the number of
  positions with true label 1 and predicted label 1, TN with 0 and 0, FP with 0 and 1,
  FN with 1 and 0; and the four add up to the length of the vectors.
\<close>

theorem calc_TP_TN_FP_FN_counts:
  assumes "length ytrue_N = length yhat_N"
    and "set ytrue_N \<subseteq> {0, 1}" and "set yhat_N \<subseteq> {0, 1}"
  shows "\<exists>TP TN FP FN.
           calc_TP_TN_FP_FN ytrue_N yhat_N = Inr (TP, TN, FP, FN)
         \<and> TP = count_pairs 1 1 ytrue_N yhat_N
         \<and> TN = count_pairs 0 0 ytrue_N yhat_N
         \<and> FP = count_pairs 0 1 ytrue_N yhat_N
         \<and> FN = count_pairs 1 0 ytrue_N yhat_N
         \<and> 0 \<le> TP \<and> 0 \<le> TN \<and> 0 \<le> FP \<and> 0 \<le> FN
         \<and> TP + TN + FP + FN = int (length ytrue_N)"
proof -
  note S = sum_and_counts [OF assms]
  have "calc_TP_TN_FP_FN ytrue_N yhat_N =
      Inr (count_pairs 1 1 ytrue_N yhat_N, count_pairs 0 0 ytrue_N yhat_N,
           count_pairs 0 1 ytrue_N yhat_N, count_pairs 1 0 ytrue_N yhat_N)"
    using assms(1) S by (simp add: calc_TP_TN_FP_FN_def)
  then show ?thesis
    using count_pairs_total [OF assms] by (simp add: count_pairs_nonneg)
qed

theorem calc_TP_TN_FP_FN_counts_witness:
  "length [0, 0, 0, 0, 1, 1, 1, 1 :: int32] = length [0, 0, 1, 0, 1, 1, 0, 0 :: int32]
   \<and> set [0, 0, 0, 0, 1, 1, 1, 1 :: int32] \<subseteq> {0, 1}
   \<and> set [0, 0, 1, 0, 1, 1, 0, 0 :: int32] \<subseteq> {0, 1}
   \<and> calc_TP_TN_FP_FN [0, 0, 0, 0, 1, 1, 1, 1] [0, 0, 1, 0, 1, 1, 0, 0] = Inr (2, 3, 1, 2)"
  using calc_TP_TN_FP_FN_counts [of "[0, 0, 0, 0, 1, 1, 1, 1]" "[0, 0, 1, 0, 1, 1, 0, 0]"]
  by (simp add: count_pairs_def)

text \<open>
  C8. When the two label vectors differ in length, \<open>calc_TP_TN_FP_FN\<close> raises (the
  assertion on the shapes fails) and returns no counts.
\<close>

theorem calc_TP_TN_FP_FN_length_mismatch:
  assumes "length ytrue_N \<noteq> length yhat_N"
  shows "calc_TP_TN_FP_FN ytrue_N yhat_N = Inl AssertionError"
  using assms by (simp add: calc_TP_TN_FP_FN_def)

theorem calc_TP_TN_FP_FN_length_mismatch_witness:
  "length [1 :: int32] \<noteq> length [1, 0, 1 :: int32]
   \<and> calc_TP_TN_FP_FN [1] [1, 0, 1] = Inl AssertionError"
  using calc_TP_TN_FP_FN_length_mismatch [of "[1]" "[1, 0, 1]"]
  by simp

section \<open>The fold splitter: proofs\<close>

lemma fold_loop_blocks:
  "fold_loop a sizes cur (tr, te) =
     (tr @ map (np_setdiff1d a) (blocks a sizes cur), te @ blocks a sizes cur)"
  by (induction sizes arbitrary: cur tr te) (simp_all add: Let_def)

lemma py_slice_in_range:
  assumes "0 \<le> cur" and "0 \<le> s" and "cur + s \<le> int (length a)"
  shows "py_slice a cur (cur + s) = take (nat s) (drop (nat cur) a)"
proof -
  have lo: "slice_bound (length a) cur = nat cur"
    using assms by (simp add: slice_bound_def)
  have hi: "slice_bound (length a) (cur + s) = nat cur + nat s"
    using assms by (auto simp: slice_bound_def nat_add_distrib)
  show ?thesis
    by (simp add: py_slice_def lo hi)
qed

lemma blocks_concat_length:
  assumes "\<forall>s \<in> set sizes. 0 \<le> s" and "0 \<le> cur"
    and "cur + sum_list sizes \<le> int (length a)"
  shows "concat (blocks a sizes cur) = take (nat (sum_list sizes)) (drop (nat cur) a)
       \<and> map length (blocks a sizes cur) = map nat sizes"
  using assms
proof (induction sizes arbitrary: cur)
  case Nil
  show ?case by simp
next
  case (Cons s sizes)
  have s: "0 \<le> s" and rest: "\<forall>s \<in> set sizes. 0 \<le> s"
    using Cons.prems(1) by auto
  have sum_nonneg: "0 \<le> sum_list sizes"
    using rest by (simp add: sum_list_nonneg)
  have fit: "cur + s \<le> int (length a)"
    using Cons.prems(3) sum_nonneg by simp
  have here: "py_slice a cur (cur + s) = take (nat s) (drop (nat cur) a)"
    using Cons.prems(2) s fit by (rule py_slice_in_range)
  have IH: "concat (blocks a sizes (cur + s)) = take (nat (sum_list sizes)) (drop (nat (cur + s)) a)
       \<and> map length (blocks a sizes (cur + s)) = map nat sizes"
    using Cons.IH [of "cur + s"] rest Cons.prems(2,3) s by (simp add: add.assoc)
  have split: "take (nat s) (drop (nat cur) a) @ take (nat (sum_list sizes)) (drop (nat (cur + s)) a)
      = take (nat (s + sum_list sizes)) (drop (nat cur) a)"
    using s sum_nonneg Cons.prems(2)
    by (simp add: nat_add_distrib take_add add.commute)
  have len: "length (take (nat s) (drop (nat cur) a)) = nat s"
    using fit Cons.prems(2) s by simp
  show ?case
    using here IH split len by simp
qed

lemma add_one_to_prefix_replicate:
  assumes "0 < k"
  shows "add_one_to_prefix (replicate (nat k) (n div k)) (n mod k) = sizes_of n k"
proof -
  have r: "0 \<le> n mod k" "n mod k < k"
    using assms by simp_all
  then have hi: "slice_bound (nat k) (n mod k) = nat (n mod k)"
    by (simp add: slice_bound_def)
  have le: "nat (n mod k) \<le> nat k"
    using r by simp
  show ?thesis
    using le by (simp add: add_one_to_prefix_def sizes_of_def hi min_def Let_def)
qed

lemma length_sizes_of: "0 < k \<Longrightarrow> length (sizes_of n k) = nat k"
proof -
  assume "0 < k"
  then have "nat (n mod k) \<le> nat k"
    by (simp add: less_imp_le)
  then show ?thesis by (simp add: sizes_of_def)
qed

lemma sizes_of_nth:
  assumes "0 < k" and "f < nat k"
  shows "sizes_of n k ! f = n div k + (if int f < n mod k then 1 else 0)"
proof -
  have r: "0 \<le> n mod k" "n mod k < k"
    using assms by simp_all
  show ?thesis
  proof (cases "int f < n mod k")
    case True
    then have "f < nat (n mod k)" by simp
    then show ?thesis using True by (simp add: sizes_of_def nth_append)
  next
    case False
    then have ge: "\<not> f < nat (n mod k)" using r by simp
    have "f - nat (n mod k) < nat k - nat (n mod k)"
      using ge assms(2) by simp
    then show ?thesis using False ge by (simp add: sizes_of_def nth_append)
  qed
qed

lemma sizes_of_nonneg:
  assumes "0 \<le> n" and "0 < k"
  shows "\<forall>s \<in> set (sizes_of n k). 0 \<le> s"
proof -
  have "0 \<le> n div k"
    using assms by (simp add: pos_imp_zdiv_nonneg_iff)
  then show ?thesis
    by (auto simp: sizes_of_def)
qed

lemma sum_list_sizes_of:
  assumes "0 < k"
  shows "sum_list (sizes_of n k) = n"
proof -
  have r: "0 \<le> n mod k" "n mod k < k"
    using assms by simp_all
  have "int (nat k - nat (n mod k)) = k - n mod k"
    using r by simp
  then have "sum_list (sizes_of n k) = (n mod k) * (n div k + 1) + (k - n mod k) * (n div k)"
    using r by (simp add: sizes_of_def sum_list_replicate)
  also have "\<dots> = k * (n div k) + n mod k"
    by (simp add: algebra_simps)
  also have "\<dots> = n"
    by simp
  finally show ?thesis .
qed

lemma splitter_unfold:
  assumes "0 < k" and "get_generator np rs h = Inr g"
  shows "fst (make_train_and_test_row_ids_for_n_fold_cv np n k rs h) =
     Inr (map (np_setdiff1d (fst (shuffle np g (np_arange n))))
            (blocks (fst (shuffle np g (np_arange n))) (sizes_of n k) 0),
          blocks (fst (shuffle np g (np_arange n))) (sizes_of n k) 0)"
proof -
  have k: "k \<noteq> 0" "\<not> k < 0"
    using assms(1) by simp_all
  show ?thesis
    using k assms(2) add_one_to_prefix_replicate [OF assms(1), of n]
    by (simp add: make_train_and_test_row_ids_for_n_fold_cv_def floordiv_def pymod_def
        np_full_def fold_loop_blocks split_beta)
qed

lemma shuffled_arange:
  assumes "mset a = mset (np_arange n)" and "0 \<le> n"
  shows "int (length a) = n" and "distinct a" and "set a = {0..n - 1}"
proof -
  have "length a = length (np_arange n)"
    using assms(1) by (rule mset_eq_length)
  then show "int (length a) = n"
    using assms(2) by (simp add: np_arange_def)
  have "distinct (np_arange n)"
    by (simp add: np_arange_def)
  then show "distinct a"
    using assms(1) by (metis mset_eq_imp_distinct_iff)
  have "set a = set (np_arange n)"
    using assms(1) by (rule mset_eq_setD)
  then show "set a = {0..n - 1}"
    by (simp add: np_arange_def)
qed

lemma blocks_of_shuffled:
  assumes "int (length a) = n" and "0 \<le> n" and "0 < k"
  shows "concat (blocks a (sizes_of n k) 0) = a"
    and "map length (blocks a (sizes_of n k) 0) = map nat (sizes_of n k)"
    and "length (blocks a (sizes_of n k) 0) = nat k"
proof -
  have fit: "0 + sum_list (sizes_of n k) \<le> int (length a)"
    using assms by (simp add: sum_list_sizes_of)
  note B = blocks_concat_length [OF sizes_of_nonneg [OF assms(2,3)] order_refl fit]
  have "nat n = length a" using assms(1) by simp
  then show "concat (blocks a (sizes_of n k) 0) = a"
    using B by (simp add: sum_list_sizes_of [OF assms(3)])
  show L: "map length (blocks a (sizes_of n k) 0) = map nat (sizes_of n k)"
    using B by simp
  have "length (map length (blocks a (sizes_of n k) 0)) = nat k"
    unfolding L using assms(3) by (simp add: length_sizes_of)
  then show "length (blocks a (sizes_of n k) 0) = nat k" by simp
qed



lemma sorted_np_setdiff1d: "sorted (np_setdiff1d a b)"
  by (simp add: np_setdiff1d_def np_unique_def sorted_wrt_filter)

lemma splitter_result:
  assumes perm: "\<And>g a. mset (fst (shuffle np g a)) = mset a"
    and n: "0 \<le> n" and k: "0 < k" and g: "get_generator np rs h = Inr g"
  obtains a te where
    "a = fst (shuffle np g (np_arange n))"
    "fst (make_train_and_test_row_ids_for_n_fold_cv np n k rs h) = Inr (map (np_setdiff1d a) te, te)"
    "int (length a) = n" "distinct a" "set a = {0..n - 1}"
    "concat te = a" "map length te = map nat (sizes_of n k)" "length te = nat k"
proof -
  define a where "a = fst (shuffle np g (np_arange n))"
  define te where "te = blocks a (sizes_of n k) 0"
  have m: "mset a = mset (np_arange n)"
    unfolding a_def by (rule perm)
  note A = shuffled_arange [OF m n]
  note B = blocks_of_shuffled [OF A(1) n k]
  show thesis
  proof (rule that [of a te])
    show "a = fst (shuffle np g (np_arange n))" by (rule a_def)
    show "fst (make_train_and_test_row_ids_for_n_fold_cv np n k rs h) = Inr (map (np_setdiff1d a) te, te)"
      unfolding te_def a_def by (rule splitter_unfold [OF k g])
    show "int (length a) = n" by (rule A(1))
    show "distinct a" by (rule A(2))
    show "set a = {0..n - 1}" by (rule A(3))
    show "concat te = a" unfolding te_def by (rule B(1))
    show "map length te = map nat (sizes_of n k)" unfolding te_def by (rule B(2))
    show "length te = nat k" unfolding te_def by (rule B(3))
  qed
qed




lemma mset_rotate1: "mset (rotate1 a) = mset a"
  by (cases a) simp_all

lemma mset_rotate: "mset (rotate m a) = mset a"
  by (induction m) (simp_all add: mset_rotate1)

lemma rotating_random_permutes: "mset (fst (shuffle rotating_random g a)) = mset a"
  by (simp add: rotating_random_def mset_rotate mset_rotate1)







lemma length_block_nth:
  assumes "map length te = map nat (sizes_of n k)" and "0 \<le> n" and "0 < k" and "f < nat k"
  shows "int (length (te ! f)) = n div k + (if int f < n mod k then 1 else 0)"
proof -
  have lt: "length te = nat k"
    using arg_cong [OF assms(1), of length] assms(3) by (simp add: length_sizes_of)
  have "length (te ! f) = map length te ! f"
    using lt assms(4) by simp
  also have "\<dots> = nat (sizes_of n k ! f)"
    unfolding assms(1) using assms(3,4) by (simp add: length_sizes_of)
  finally have "int (length (te ! f)) = int (nat (sizes_of n k ! f))"
    by simp
  moreover have "0 \<le> n div k"
    using assms(2,3) by (simp add: pos_imp_zdiv_nonneg_iff)
  ultimately show ?thesis
    using sizes_of_nth [OF assms(3,4), of n] by simp
qed



text \<open>
  C4. With an integer seed the splitter builds its own generator, so its result depends
  on \<open>n_examples\<close>, \<open>n_folds\<close> and the seed alone: two calls with the same three
  values return the same folds (or raise the same exception), whatever generator objects
  exist and whatever state they are in, and such a call changes no generator object.
\<close>

theorem integer_seed_is_deterministic:
  "fst (make_train_and_test_row_ids_for_n_fold_cv np n_examples n_folds (Seed s) h1)
     = fst (make_train_and_test_row_ids_for_n_fold_cv np n_examples n_folds (Seed s) h2)
   \<and> snd (make_train_and_test_row_ids_for_n_fold_cv np n_examples n_folds (Seed s) h1) = h1"
  by (simp add: make_train_and_test_row_ids_for_n_fold_cv_def get_generator_def
      put_generator_def split_beta Let_def split: sum.splits)

text \<open>
  C5. For \<open>n_folds \<le> 0\<close> the splitter raises and returns no folds: the exception of
  the generator if the seed is rejected, else \<open>ZeroDivisionError\<close> from
  \<open>n_examples // n_folds\<close> when \<open>n_folds = 0\<close> and \<open>ValueError\<close> from
  \<open>np.full\<close> when \<open>n_folds < 0\<close>.
\<close>

theorem nonpositive_n_folds_raises:
  assumes "n_folds \<le> 0"
  shows "fst (make_train_and_test_row_ids_for_n_fold_cv np n_examples n_folds random_state h)
     = Inl (case get_generator np random_state h of
              Inl e \<Rightarrow> e
            | Inr g \<Rightarrow> if n_folds = 0 then ZeroDivisionError else ValueError)"
  using assms
  by (simp add: make_train_and_test_row_ids_for_n_fold_cv_def floordiv_def np_full_def
      split_beta Let_def split: sum.splits)

theorem nonpositive_n_folds_raises_witness:
  "(0::int) \<le> 0 \<and> (- 2::int) \<le> 0
   \<and> fst (make_train_and_test_row_ids_for_n_fold_cv rotating_random 3 0 (Seed 4) (\<lambda>_. 0))
       = Inl ZeroDivisionError
   \<and> fst (make_train_and_test_row_ids_for_n_fold_cv rotating_random 3 (- 2) (Seed 4) (\<lambda>_. 0))
       = Inl ValueError"
  using nonpositive_n_folds_raises [of 0 rotating_random 3 "Seed 4" "\<lambda>_. 0"]
    nonpositive_n_folds_raises [of "- 2" rotating_random 3 "Seed 4" "\<lambda>_. 0"]
  by (simp add: get_generator_def rotating_random_def)


lemma np_setdiff1d_nothing:
  assumes "distinct a" and "set a = {0..n - 1}"
  shows "np_setdiff1d a [] = np_arange n"
proof -
  have "np_setdiff1d a [] = sort a"
    using assms(1) by (simp add: np_setdiff1d_def np_unique_def distinct_remdups_id)
  moreover have "sort a = np_arange n"
  proof (rule sorted_distinct_set_unique)
    show "sorted (sort a)" by simp
    show "distinct (sort a)" using assms(1) by simp
    show "sorted (np_arange n)" by (simp add: np_arange_def)
    show "distinct (np_arange n)" by (simp add: np_arange_def)
    show "set (sort a) = set (np_arange n)" using assms(2) by (simp add: np_arange_def)
  qed
  ultimately show ?thesis by simp
qed



text \<open>
  C10. With more folds than examples, \<open>0 < n_examples < n_folds\<close>, the splitter does
  not raise: it returns \<open>n_folds\<close> folds; each of the first \<open>n_examples\<close> folds has
  exactly one test id, the other folds have none, and every fold without test ids has
  all of \<open>0, ..., n_examples - 1\<close> as its train ids.
\<close>

theorem more_folds_than_examples:
  assumes perm: "\<And>g a. mset (fst (shuffle np g a)) = mset a"
    and n: "0 < n_examples" and nk: "n_examples < n_folds"
    and g: "get_generator np random_state h = Inr g"
  shows "\<exists>train_ids_per_fold test_ids_per_fold.
      fst (make_train_and_test_row_ids_for_n_fold_cv np n_examples n_folds random_state h)
        = Inr (train_ids_per_fold, test_ids_per_fold)
    \<and> length train_ids_per_fold = nat n_folds
    \<and> length test_ids_per_fold = nat n_folds
    \<and> (\<forall>f < nat n_examples. length (test_ids_per_fold ! f) = 1)
    \<and> (\<forall>f < nat n_folds. nat n_examples \<le> f \<longrightarrow> test_ids_per_fold ! f = [])
    \<and> (\<forall>f < nat n_folds. test_ids_per_fold ! f = [] \<longrightarrow>
          train_ids_per_fold ! f = np_arange n_examples
        \<and> set (train_ids_per_fold ! f) = {0..n_examples - 1})"
proof -
  have n0: "0 \<le> n_examples" and k: "0 < n_folds"
    using n nk by simp_all
  from splitter_result [OF perm n0 k g] obtain a te where
    res: "fst (make_train_and_test_row_ids_for_n_fold_cv np n_examples n_folds random_state h)
            = Inr (map (np_setdiff1d a) te, te)"
    and dist: "distinct a" and set_a: "set a = {0..n_examples - 1}"
    and lens: "map length te = map nat (sizes_of n_examples n_folds)"
    and len_te: "length te = nat n_folds"
    by metis
  have dm: "n_examples div n_folds = 0" "n_examples mod n_folds = n_examples"
    using n nk by simp_all
  have size: "int (length (te ! f)) = (if int f < n_examples then 1 else 0)"
    if "f < nat n_folds" for f
    using length_block_nth [OF lens n0 k that] dm by simp
  have one: "length (te ! f) = 1" if f: "f < nat n_examples" for f
  proof -
    have "f < nat n_folds" and "int f < n_examples"
      using f nk by simp_all
    then have "int (length (te ! f)) = 1"
      using size [of f] by simp
    then show ?thesis by simp
  qed
  have none: "te ! f = []" if f: "f < nat n_folds" "nat n_examples \<le> f" for f
  proof -
    have "\<not> int f < n_examples"
      using f(2) by simp
    then have "int (length (te ! f)) = 0"
      using size [OF f(1)] by simp
    then show ?thesis by simp
  qed
  have train: "map (np_setdiff1d a) te ! f = np_arange n_examples
        \<and> set (map (np_setdiff1d a) te ! f) = {0..n_examples - 1}"
    if "f < nat n_folds" and "te ! f = []" for f
  proof -
    have "map (np_setdiff1d a) te ! f = np_setdiff1d a []"
      using that len_te by simp
    then have "map (np_setdiff1d a) te ! f = np_arange n_examples"
      using np_setdiff1d_nothing [OF dist set_a] by simp
    then show ?thesis by (simp add: np_arange_def)
  qed
  show ?thesis
    using res len_te one none train by (simp add: np_arange_def)
qed

theorem more_folds_than_examples_witness:
  "(0::int) < 3 \<and> (3::int) < 5
   \<and> get_generator rotating_random (Seed 4) (\<lambda>_. 0) = Inr 4
   \<and> fst (make_train_and_test_row_ids_for_n_fold_cv rotating_random 3 5 (Seed 4) (\<lambda>_. 0))
        = Inr ([[0, 1], [1, 2], [0, 2], [0, 1, 2], [0, 1, 2]], [[2], [0], [1], [], []])
   \<and> (\<exists>train_ids_per_fold test_ids_per_fold.
      fst (make_train_and_test_row_ids_for_n_fold_cv rotating_random 3 5 (Seed 4) (\<lambda>_. 0))
        = Inr (train_ids_per_fold, test_ids_per_fold)
    \<and> length train_ids_per_fold = nat 5
    \<and> length test_ids_per_fold = nat 5
    \<and> (\<forall>f < nat 3. length (test_ids_per_fold ! f) = 1)
    \<and> (\<forall>f < nat 5. nat 3 \<le> f \<longrightarrow> test_ids_per_fold ! f = [])
    \<and> (\<forall>f < nat 5. test_ids_per_fold ! f = [] \<longrightarrow>
          train_ids_per_fold ! f = np_arange 3
        \<and> set (train_ids_per_fold ! f) = {0..3 - 1}))"
proof -
  have n: "(0::int) < 3" and nk: "(3::int) < 5"
    by simp_all
  have g: "get_generator rotating_random (Seed 4) (\<lambda>_. 0) = Inr 4"
    by (simp add: get_generator_def rotating_random_def)
  have v: "fst (make_train_and_test_row_ids_for_n_fold_cv rotating_random 3 5 (Seed 4) (\<lambda>_. 0))
        = Inr ([[0, 1], [1, 2], [0, 2], [0, 1, 2], [0, 1, 2]], [[2], [0], [1], [], []])"
    by code_simp
  show ?thesis
    by (intro conjI n nk g v more_folds_than_examples [OF rotating_random_permutes n nk g])
qed

lemma guarded_ratio_bounds:
  assumes mono: "\<And>x y. x \<le> y \<Longrightarrow> rnd x \<le> rnd y"
    and zero: "rnd 0 = 0" and one: "rnd 1 = 1"
    and idem: "\<And>x. rnd (rnd x) = rnd x"
    and eps: "0 < rnd (1 / 10 ^ 10)"
    and a: "0 \<le> a" and s: "a \<le> s"
  shows "0 < rnd (rnd (of_int s) + rnd (1 / 10 ^ 10))"
    and "0 \<le> guarded_ratio rnd a s" and "guarded_ratio rnd a s \<le> 1"
proof -
  define x where "x = rnd (of_int a)"
  define y where "y = rnd (of_int s)"
  define e where "e = rnd (1 / 10 ^ 10)"
  define d where "d = rnd (y + e)"
  have x0: "0 \<le> x"
    unfolding x_def using mono [of 0 "of_int a"] a zero by simp
  have xy: "x \<le> y"
    unfolding x_def y_def using s by (intro mono) simp
  have "rnd y \<le> rnd (y + e)"
    using eps by (intro mono) (simp add: e_def)
  then have yd: "y \<le> d"
    unfolding d_def using idem [of "of_int s"] by (simp add: y_def)
  have "rnd e \<le> rnd (y + e)"
    using x0 xy by (intro mono) simp
  then have ed: "e \<le> d"
    unfolding d_def using idem [of "1 / 10 ^ 10"] by (simp add: e_def)
  have d0: "0 < d"
    using ed eps by (simp add: e_def)
  then show "0 < rnd (rnd (of_int s) + rnd (1 / 10 ^ 10))"
    by (simp add: d_def y_def e_def)
  have q0: "0 \<le> x / d"
    using x0 d0 by simp
  have q1: "x / d \<le> 1"
    using xy yd d0 by simp
  have g: "guarded_ratio rnd a s = rnd (x / d)"
    by (simp add: guarded_ratio_def x_def y_def e_def d_def)
  show "0 \<le> guarded_ratio rnd a s"
    unfolding g using mono [OF q0] zero by simp
  show "guarded_ratio rnd a s \<le> 1"
    unfolding g using mono [OF q1] one by simp
qed

lemma float_div_guarded:
  assumes "0 < rnd (rnd (of_int s) + rnd (1 / 10 ^ 10))"
  shows "float_div rnd (float_of_int rnd a)
           (float_add rnd (float_of_int rnd s) (literal_1e_10 rnd))
         = Inr (guarded_ratio rnd a s)"
  using assms
  by (simp add: float_div_def float_of_int_def float_add_def literal_1e_10_def guarded_ratio_def)

lemma calc_TP_TN_FP_FN_binary:
  assumes "length yt = length yh" and "set yt \<subseteq> {0, 1}" and "set yh \<subseteq> {0, 1}"
  shows "calc_TP_TN_FP_FN yt yh =
      Inr (count_pairs 1 1 yt yh, count_pairs 0 0 yt yh,
           count_pairs 0 1 yt yh, count_pairs 1 0 yt yh)"
  using assms(1) sum_and_counts [OF assms] by (simp add: calc_TP_TN_FP_FN_def)

text \<open>
  C9. For label vectors of equal length with entries 0 or 1, in float arithmetic
  (any rounding that is monotone, leaves floats, 0 and 1 alone, and does not round
  \<open>1e-10\<close> to zero): \<open>calc_ACC\<close> returns \<open>(TP+TN)/(TP+TN+FP+FN+1e-10)\<close>, \<open>calc_TPR\<close>
  returns \<open>TP/(TP+FN+1e-10)\<close> and \<open>calc_PPV\<close> returns \<open>TP/(TP+FP+1e-10)\<close>; none
  raises, and each value lies between 0 and 1. On empty vectors \<open>calc_TPR\<close> and
  \<open>calc_PPV\<close> return 0.
\<close>

theorem ratios_in_unit_interval:
  assumes mono: "\<And>x y. x \<le> y \<Longrightarrow> rnd x \<le> rnd y"
    and zero: "rnd 0 = 0" and one: "rnd 1 = 1"
    and idem: "\<And>x. rnd (rnd x) = rnd x"
    and eps: "0 < rnd (1 / 10 ^ 10)"
    and len: "length ytrue_N = length yhat_N"
    and bin: "set ytrue_N \<subseteq> {0, 1}" "set yhat_N \<subseteq> {0, 1}"
  shows "\<exists>TP TN FP FN acc tpr ppv.
      calc_TP_TN_FP_FN ytrue_N yhat_N = Inr (TP, TN, FP, FN)
    \<and> calc_ACC rnd ytrue_N yhat_N = Inr acc
    \<and> acc = guarded_ratio rnd (TP + TN) (TP + TN + FP + FN)
    \<and> 0 \<le> acc \<and> acc \<le> 1
    \<and> calc_TPR rnd ytrue_N yhat_N = Inr tpr
    \<and> tpr = guarded_ratio rnd TP (TP + FN)
    \<and> 0 \<le> tpr \<and> tpr \<le> 1
    \<and> calc_PPV rnd ytrue_N yhat_N = Inr ppv
    \<and> ppv = guarded_ratio rnd TP (TP + FP)
    \<and> 0 \<le> ppv \<and> ppv \<le> 1
    \<and> calc_TPR rnd [] [] = Inr 0
    \<and> calc_PPV rnd [] [] = Inr 0"
proof -
  define TP where "TP = count_pairs 1 1 ytrue_N yhat_N"
  define TN where "TN = count_pairs 0 0 ytrue_N yhat_N"
  define FP where "FP = count_pairs 0 1 ytrue_N yhat_N"
  define FN where "FN = count_pairs 1 0 ytrue_N yhat_N"
  have counts: "calc_TP_TN_FP_FN ytrue_N yhat_N = Inr (TP, TN, FP, FN)"
    unfolding TP_def TN_def FP_def FN_def using len bin by (rule calc_TP_TN_FP_FN_binary)
  have nonneg: "0 \<le> TP" "0 \<le> TN" "0 \<le> FP" "0 \<le> FN"
    by (simp_all add: TP_def TN_def FP_def FN_def count_pairs_nonneg)
  have B: "0 < rnd (rnd (of_int s) + rnd (1 / 10 ^ 10))"
      "0 \<le> guarded_ratio rnd a s" "guarded_ratio rnd a s \<le> 1"
    if "0 \<le> a" and "a \<le> s" for a s
    using guarded_ratio_bounds [where rnd = rnd and a = a and s = s]
      mono zero one idem eps that by blast+
  have acc_a: "0 \<le> TP + TN" and acc_s: "TP + TN \<le> TP + TN + FP + FN"
    using nonneg by simp_all
  have tpr_s: "TP \<le> TP + FN" and ppv_s: "TP \<le> TP + FP"
    using nonneg by simp_all
  have acc: "calc_ACC rnd ytrue_N yhat_N = Inr (guarded_ratio rnd (TP + TN) (TP + TN + FP + FN))"
    using float_div_guarded [where rnd = rnd and a = "TP + TN" and s = "TP + TN + FP + FN",
        OF B(1) [OF acc_a acc_s]]
    by (simp add: calc_ACC_def counts)
  have tpr: "calc_TPR rnd ytrue_N yhat_N = Inr (guarded_ratio rnd TP (TP + FN))"
    using float_div_guarded [where rnd = rnd and a = TP and s = "TP + FN",
        OF B(1) [OF nonneg(1) tpr_s]]
    by (simp add: calc_TPR_def counts)
  have ppv: "calc_PPV rnd ytrue_N yhat_N = Inr (guarded_ratio rnd TP (TP + FP))"
    using float_div_guarded [where rnd = rnd and a = TP and s = "TP + FP",
        OF B(1) [OF nonneg(1) ppv_s]]
    by (simp add: calc_PPV_def counts)
  have empty_counts: "calc_TP_TN_FP_FN [] [] = Inr (0, 0, 0, 0)"
    by (simp add: calc_TP_TN_FP_FN_def np_sum_Nil)
  have g0: "guarded_ratio rnd 0 0 = 0"
    by (simp add: guarded_ratio_def zero)
  have d0: "0 < rnd (rnd (of_int 0) + rnd (1 / 10 ^ 10))"
    by (rule B(1) [of 0 0]) simp_all
  have empty_tpr: "calc_TPR rnd [] [] = Inr 0"
    using float_div_guarded [where rnd = rnd and a = 0 and s = 0, OF d0] g0
    by (simp add: calc_TPR_def empty_counts)
  have empty_ppv: "calc_PPV rnd [] [] = Inr 0"
    using float_div_guarded [where rnd = rnd and a = 0 and s = 0, OF d0] g0
    by (simp add: calc_PPV_def empty_counts)
  show ?thesis
    using counts acc tpr ppv empty_tpr empty_ppv
      B(2) [OF acc_a acc_s] B(3) [OF acc_a acc_s]
      B(2) [OF nonneg(1) tpr_s] B(3) [OF nonneg(1) tpr_s]
      B(2) [OF nonneg(1) ppv_s] B(3) [OF nonneg(1) ppv_s]
    by simp
qed

theorem ratios_in_unit_interval_witness:
  "length [0, 0, 0, 0, 1, 1, 1, 1 :: int32] = length [0, 0, 1, 0, 1, 1, 0, 0 :: int32]
   \<and> set [0, 0, 0, 0, 1, 1, 1, 1 :: int32] \<subseteq> {0, 1}
   \<and> set [0, 0, 1, 0, 1, 1, 0, 0 :: int32] \<subseteq> {0, 1}
   \<and> calc_ACC (\<lambda>x. x) [0, 0, 0, 0, 1, 1, 1, 1] [0, 0, 1, 0, 1, 1, 0, 0]
        = Inr (5 / (8 + 1 / 10 ^ 10))
   \<and> calc_TPR (\<lambda>x. x) [0, 0, 0, 0, 1, 1, 1, 1] [0, 0, 1, 0, 1, 1, 0, 0]
        = Inr (2 / (4 + 1 / 10 ^ 10))
   \<and> calc_PPV (\<lambda>x. x) [0, 0, 0, 0, 1, 1, 1, 1] [0, 0, 1, 0, 1, 1, 0, 0]
        = Inr (2 / (3 + 1 / 10 ^ 10))
   \<and> calc_TPR (\<lambda>x. x) [] [] = Inr 0
   \<and> calc_PPV (\<lambda>x. x) [] [] = Inr 0"
proof -
  have c: "calc_TP_TN_FP_FN [0, 0, 0, 0, 1, 1, 1, 1] [0, 0, 1, 0, 1, 1, 0, 0] = Inr (2, 3, 1, 2)"
    by (simp add: calc_TP_TN_FP_FN_def np_sum_def)
  show ?thesis
    using ratios_in_unit_interval [where rnd = "\<lambda>x. x"
        and ytrue_N = "[0, 0, 0, 0, 1, 1, 1, 1]" and yhat_N = "[0, 0, 1, 0, 1, 1, 0, 0]"]
    unfolding c by (simp add: guarded_ratio_def)
qed

end
